theory Spec2Isabelle
  imports Main
begin

section \<open>treq.testing: stub responses, stub strategies and the StubTreq facade\<close>

subsection \<open>Python values\<close>

text \<open>
  The values that appear as keyword arguments, header values and response bodies:
  \<open>None\<close>, integers, text, bytes, lists and dictionaries with string keys. A dictionary
  is a finite map, so two dictionaries are equal exactly when they have the same keys
  with equal values, whatever the insertion order, as Python's \<open>dict.__eq__\<close> decides.
  On this universe Python's \<open>==\<close> is structural equality (booleans and floats, where
  \<open>1 == True == 1.0\<close>, are left out).
\<close>

datatype pyval =
    PyNone
  | PyInt int
  | PyStr string
  | PyBytes string
  | PyList "pyval list"
  | PyDict "string \<Rightarrow> pyval option"

type_synonym kwargs = "string \<Rightarrow> pyval option"

subsection \<open>StubResponse\<close>

text \<open>
  \<open>StubResponse.__init__(code, headers, data=None)\<close> stores its three arguments;
  \<open>data\<close> is the field the source calls \<open>_data\<close>.
\<close>

record StubResponse =
  code :: int
  headers :: "string \<Rightarrow> pyval option"
  data :: pyval

definition StubResponse_init :: "int \<Rightarrow> (string \<Rightarrow> pyval option) \<Rightarrow> pyval option \<Rightarrow> StubResponse" where
  "StubResponse_init c h d =
     \<lparr>code = c, headers = h, data = (case d of None \<Rightarrow> PyNone | Some v \<Rightarrow> v)\<rparr>"

text \<open>
  The right operand of \<open>==\<close> is any Python object: an instance of \<open>StubResponse\<close>
  (the module defines no subclass of it) or some other value.
\<close>

datatype pyobj =
    StubResponseObj StubResponse
  | ValueObj pyval

text \<open>
  \<open>__eq__\<close>: \<open>isinstance(other, self.__class__)\<close> and the three fields equal, with
  Python's short-circuit \<open>and\<close>: the fields of \<open>other\<close> are read only once the
  instance test has passed.
\<close>

definition StubResponse_eq :: "StubResponse \<Rightarrow> pyobj \<Rightarrow> bool" where
  "StubResponse_eq self other =
     (case other of
        StubResponseObj other' \<Rightarrow>
          code self = code other' \<and> headers self = headers other' \<and> data self = data other'
      | ValueObj _ \<Rightarrow> False)"

text \<open>\<open>__ne__\<close>: \<open>not self == other\<close>.\<close>

definition StubResponse_ne :: "StubResponse \<Rightarrow> pyobj \<Rightarrow> bool" where
  "StubResponse_ne self other = (\<not> StubResponse_eq self other)"

subsection \<open>Requests, stubs and errors\<close>

text \<open>
  A request is the tuple \<open>(method, url, kwargs)\<close>; a stub is a pair of a request and
  the response mapped to it.
\<close>

type_synonym request = "string \<times> string \<times> kwargs"

type_synonym stub = "request \<times> StubResponse"

text \<open>
  The exceptions of the module, with the values their messages are formatted from:
  \<^item> \<open>Exception("Duplicate requests and responses: {0!r}:{1!r} and {2!r}:{3!r}")\<close>;
  \<^item> \<open>ValueError("No response mapped to ({0}, {1}, {2!r}")\<close>;
  \<^item> \<open>ValueError("Not expecting request ({0}, {1}, {2!r}")\<close>;
  \<^item> \<open>AttributeError\<close> with its message as a string.
\<close>

datatype error =
    DuplicateRequests request StubResponse request StubResponse
  | NoResponseMapped string string kwargs
  | NotExpectingRequest string string kwargs
  | AttributeError string

subsection \<open>ResponseMapping\<close>

record ResponseMapping =
  mapping_stubs :: "stub list"

text \<open>
  The inner loop of \<open>__init__\<close>: \<open>for itemagain in self.stubs[i + 1:]\<close>, raising at the
  first \<open>itemagain\<close> whose request equals that of \<open>item\<close>.
\<close>

fun check_itemagain :: "stub \<Rightarrow> stub list \<Rightarrow> error option" where
  "check_itemagain item [] = None"
| "check_itemagain item (itemagain # rest) =
     (if fst item = fst itemagain
      then Some (DuplicateRequests (fst item) (snd item) (fst itemagain) (snd itemagain))
      else check_itemagain item rest)"

text \<open>The outer loop: \<open>for i, item in enumerate(self.stubs)\<close>.\<close>

fun check_stubs :: "stub list \<Rightarrow> error option" where
  "check_stubs [] = None"
| "check_stubs (item # later) =
     (case check_itemagain item later of
        Some e \<Rightarrow> Some e
      | None \<Rightarrow> check_stubs later)"

text \<open>\<open>ResponseMapping.__init__(stubs=None)\<close>: \<open>None\<close> stands for the empty list.\<close>

definition ResponseMapping_init :: "stub list option \<Rightarrow> error + ResponseMapping" where
  "ResponseMapping_init stubs =
     (let stubs' = (case stubs of None \<Rightarrow> [] | Some l \<Rightarrow> l)
      in case check_stubs stubs' of
           Some e \<Rightarrow> Inl e
         | None \<Rightarrow> Inr \<lparr>mapping_stubs = stubs'\<rparr>)"

text \<open>The loop of \<open>get_response\<close>: \<open>for req, resp in self.stubs\<close>.\<close>

fun scan_stubs :: "stub list \<Rightarrow> request \<Rightarrow> StubResponse option" where
  "scan_stubs [] r = None"
| "scan_stubs ((req, resp) # rest) r = (if req = r then Some resp else scan_stubs rest r)"

text \<open>
  \<open>ResponseMapping.get_response(method, url, **kwargs)\<close>. The object is passed in and
  returned with the outcome, so that what a call does to it is part of the model; the
  source assigns nothing, on either path.
\<close>

definition ResponseMapping_get_response ::
  "ResponseMapping \<Rightarrow> string \<Rightarrow> string \<Rightarrow> kwargs \<Rightarrow> (error + StubResponse) \<times> ResponseMapping" where
  "ResponseMapping_get_response self method url kwargs =
     (case scan_stubs (mapping_stubs self) (method, url, kwargs) of
        Some resp \<Rightarrow> (Inr resp, self)
      | None \<Rightarrow> (Inl (NoResponseMapped method url kwargs), self))"

subsection \<open>ResponseSequence\<close>

record ResponseSequence =
  sequence_stubs :: "stub list"

definition ResponseSequence_init :: "stub list option \<Rightarrow> ResponseSequence" where
  "ResponseSequence_init stubs =
     \<lparr>sequence_stubs = (case stubs of None \<Rightarrow> [] | Some l \<Rightarrow> l)\<rparr>"

text \<open>
  \<open>ResponseSequence.get_response(method, url, **kwargs)\<close>: with a non-empty list, the
  request is compared with \<open>self.stubs[0]\<close>; everything else raises.
\<close>

definition ResponseSequence_get_response ::
  "ResponseSequence \<Rightarrow> string \<Rightarrow> string \<Rightarrow> kwargs \<Rightarrow> (error + StubResponse) \<times> ResponseSequence" where
  "ResponseSequence_get_response self method url kwargs =
     (case sequence_stubs self of
        (expected_req, resp) # _ \<Rightarrow>
          (if expected_req = (method, url, kwargs) then (Inr resp, self)
           else (Inl (NotExpectingRequest method url kwargs), self))
      | [] \<Rightarrow> (Inl (NotExpectingRequest method url kwargs), self))"

subsection \<open>StubTreq\<close>

text \<open>
  \<open>StubTreq.stubs\<close> is either a \<open>ResponseMapping\<close> or a \<open>ResponseSequence\<close>; the call
  \<open>self.stubs.get_response\<close> dispatches on which.
\<close>

datatype strategy =
    Mapping ResponseMapping
  | Sequence ResponseSequence

fun get_response ::
  "strategy \<Rightarrow> string \<Rightarrow> string \<Rightarrow> kwargs \<Rightarrow> (error + StubResponse) \<times> strategy" where
  "get_response (Mapping m) method url kwargs =
     (case ResponseMapping_get_response m method url kwargs of (r, m') \<Rightarrow> (r, Mapping m'))"
| "get_response (Sequence s) method url kwargs =
     (case ResponseSequence_get_response s method url kwargs of (r, s') \<Rightarrow> (r, Sequence s'))"

record StubTreq =
  stubs :: strategy

text \<open>
  A Twisted \<open>Deferred\<close> that has already fired: with a result (\<open>succeed\<close>) or with a
  failure.
\<close>

datatype 'a Deferred =
    Succeeded 'a
  | Failed error

definition succeed :: "'a \<Rightarrow> 'a Deferred" where
  "succeed x = Succeeded x"

text \<open>
  \<open>StubTreq.request(method, url, **kwargs)\<close>: an exception of \<open>get_response\<close> leaves
  the function before \<open>succeed\<close> is reached (\<open>Inl\<close>); otherwise the response is
  wrapped.
\<close>

definition request ::
  "StubTreq \<Rightarrow> string \<Rightarrow> string \<Rightarrow> kwargs \<Rightarrow> (error + StubResponse Deferred) \<times> StubTreq" where
  "request self method url kwargs =
     (case get_response (stubs self) method url kwargs of
        (Inl e, stubs') \<Rightarrow> (Inl e, self\<lparr>stubs := stubs'\<rparr>)
      | (Inr resp, stubs') \<Rightarrow> (Inr (succeed resp), self\<lparr>stubs := stubs'\<rparr>))"

text \<open>\<open>StubTreq.content(response)\<close>: \<open>succeed(response._data)\<close>.\<close>

definition content :: "StubTreq \<Rightarrow> StubResponse \<Rightarrow> pyval Deferred" where
  "content self response = succeed (data response)"

text \<open>
  \<open>put(url, data=None, **kwargs)\<close> and \<open>post(url, data=None, **kwargs)\<close>. The argument
  \<open>data\<close> is \<open>None\<close> when the caller leaves it out, and then defaults to Python's
  \<open>None\<close>. The call \<open>self.request('PUT', url, data=data, **kwargs)\<close> hands \<open>request\<close>
  the dictionary \<open>kwargs\<close> with the key \<open>data\<close> added (\<open>kwargs\<close> itself never has that
  key: a keyword \<open>data\<close> is bound to the parameter).
\<close>

definition put ::
  "StubTreq \<Rightarrow> string \<Rightarrow> pyval option \<Rightarrow> kwargs \<Rightarrow> (error + StubResponse Deferred) \<times> StubTreq" where
  "put self url data_arg kwargs =
     (let d = (case data_arg of None \<Rightarrow> PyNone | Some v \<Rightarrow> v)
      in request self ''PUT'' url (kwargs(''data'' \<mapsto> d)))"

definition post ::
  "StubTreq \<Rightarrow> string \<Rightarrow> pyval option \<Rightarrow> kwargs \<Rightarrow> (error + StubResponse Deferred) \<times> StubTreq" where
  "post self url data_arg kwargs =
     (let d = (case data_arg of None \<Rightarrow> PyNone | Some v \<Rightarrow> v)
      in request self ''POST'' url (kwargs(''data'' \<mapsto> d)))"

text \<open>
  \<open>str.upper()\<close> on ASCII text: the letters \<open>a\<close> to \<open>z\<close> move down by 32, every other
  character stays.
\<close>

definition upper_char :: "char \<Rightarrow> char" where
  "upper_char c =
     (let n = (of_char c :: nat)
      in if 97 \<le> n \<and> n \<le> 122 then char_of (n - 32) else c)"

definition upper :: "string \<Rightarrow> string" where
  "upper s = map upper_char s"

text \<open>
  \<open>StubTreq.__getattr__(method)\<close>, which Python calls for a name that is neither an
  instance attribute nor a method of the class. For the three names it returns
  \<open>partial(self.request, method.upper())\<close>, a callable of \<open>url\<close> and the keyword
  arguments; for any other name it raises \<open>AttributeError\<close> with the message
  \<open>StubTreq has no attribute '<name>'\<close>.
\<close>

definition getattr ::
  "StubTreq \<Rightarrow> string \<Rightarrow>
   error + (string \<Rightarrow> kwargs \<Rightarrow> (error + StubResponse Deferred) \<times> StubTreq)" where
  "getattr self method =
     (if method \<in> set [''get'', ''head'', ''delete'']
      then Inr (request self (upper method))
      else Inl (AttributeError
                  (''StubTreq has no attribute '' @ [CHR 0x27] @ method @ [CHR 0x27])))"

subsection \<open>Successive calls\<close>

text \<open>
  A test makes one call after the other on the same object: each call starts from the
  object as the call before left it.
\<close>

fun mapping_calls ::
  "ResponseMapping \<Rightarrow> request list \<Rightarrow> (error + StubResponse) list \<times> ResponseMapping" where
  "mapping_calls self [] = ([], self)"
| "mapping_calls self ((method, url, kwargs) # calls) =
     (case ResponseMapping_get_response self method url kwargs of
        (r, self') \<Rightarrow>
          (case mapping_calls self' calls of (rs, self'') \<Rightarrow> (r # rs, self'')))"

fun sequence_calls ::
  "ResponseSequence \<Rightarrow> request list \<Rightarrow> (error + StubResponse) list \<times> ResponseSequence" where
  "sequence_calls self [] = ([], self)"
| "sequence_calls self ((method, url, kwargs) # calls) =
     (case ResponseSequence_get_response self method url kwargs of
        (r, self') \<Rightarrow>
          (case sequence_calls self' calls of (rs, self'') \<Rightarrow> (r # rs, self'')))"

subsection \<open>Example stubs\<close>

text \<open>
  Two responses and two requests, as a test would set them up: \<open>StubResponse(200, {},
  b'ok')\<close>, \<open>StubResponse(201, {}, b'made')\<close>, \<open>('GET', 'http://x', {})\<close> and
  \<open>('POST', 'http://x', {})\<close>.
\<close>

abbreviation resp_ok :: StubResponse where
  "resp_ok \<equiv> \<lparr>code = 200, headers = Map.empty, data = PyBytes ''ok''\<rparr>"

abbreviation resp_created :: StubResponse where
  "resp_created \<equiv> \<lparr>code = 201, headers = Map.empty, data = PyBytes ''made''\<rparr>"

abbreviation get_x :: request where
  "get_x \<equiv> (''GET'', ''http://x'', Map.empty)"

abbreviation post_x :: request where
  "post_x \<equiv> (''POST'', ''http://x'', Map.empty)"

section \<open>Properties\<close>

subsection \<open>Equality of stub responses\<close>

text \<open>
  C6. For a stub response \<open>a\<close> and any object \<open>other\<close>, \<open>a == other\<close> holds exactly when
  \<open>other\<close> is a stub response whose status code, headers and body equal those of
  \<open>a\<close>; \<open>a == a\<close> always holds; and \<open>a != other\<close> is the negation of \<open>a == other\<close>.
\<close>

theorem StubResponse_eq_fields:
  "(StubResponse_eq a other \<longleftrightarrow>
      (\<exists>b. other = StubResponseObj b \<and> code a = code b \<and> headers a = headers b \<and> data a = data b))
   \<and> (StubResponse_eq a (StubResponseObj b) \<longleftrightarrow>
        code a = code b \<and> headers a = headers b \<and> data a = data b)
   \<and> StubResponse_eq a (StubResponseObj a)
   \<and> (StubResponse_ne a other \<longleftrightarrow> \<not> StubResponse_eq a other)"
  by (cases other) (auto simp: StubResponse_eq_def StubResponse_ne_def)

theorem StubResponse_eq_fields_witness:
  "StubResponse_eq resp_ok (StubResponseObj resp_ok)
   \<and> \<not> StubResponse_eq resp_ok (StubResponseObj resp_created)
   \<and> StubResponse_ne resp_ok (StubResponseObj resp_created)
   \<and> \<not> StubResponse_eq resp_ok (ValueObj PyNone)"
  using StubResponse_eq_fields [of resp_ok "StubResponseObj resp_created" resp_created]
    StubResponse_eq_fields [of resp_ok "ValueObj PyNone" resp_ok]
  by simp

subsection \<open>Construction of a ResponseMapping\<close>

lemma check_itemagain_None:
  "check_itemagain item rest = None \<longleftrightarrow> fst item \<notin> fst ` set rest"
  by (induction rest) auto

lemma check_itemagain_Some_mem:
  "check_itemagain item rest = Some e \<Longrightarrow> fst item \<in> fst ` set rest"
  using check_itemagain_None [of item rest] by auto

lemma check_itemagain_Some:
  "check_itemagain item rest = Some e \<Longrightarrow>
     \<exists>j < length rest. fst item = fst (rest ! j)
        \<and> e = DuplicateRequests (fst item) (snd item) (fst (rest ! j)) (snd (rest ! j))"
proof (induction rest)
  case Nil
  then show ?case by simp
next
  case (Cons itemagain rest)
  show ?case
  proof (cases "fst item = fst itemagain")
    case True
    with Cons.prems
    have "e = DuplicateRequests (fst item) (snd item) (fst itemagain) (snd itemagain)"
      by simp
    with True show ?thesis by (intro exI [of _ 0]) simp
  next
    case False
    with Cons obtain j where "j < length rest" "fst item = fst (rest ! j)"
      "e = DuplicateRequests (fst item) (snd item) (fst (rest ! j)) (snd (rest ! j))"
      by auto
    then show ?thesis by (intro exI [of _ "Suc j"]) simp
  qed
qed

lemma check_stubs_None:
  "check_stubs l = None \<longleftrightarrow> distinct (map fst l)"
  by (induction l)
    (auto simp: check_itemagain_None split: option.splits dest: check_itemagain_Some_mem)

lemma check_stubs_Some:
  "check_stubs l = Some e \<Longrightarrow>
     \<exists>i j. i < j \<and> j < length l \<and> fst (l ! i) = fst (l ! j)
        \<and> e = DuplicateRequests (fst (l ! i)) (snd (l ! i)) (fst (l ! j)) (snd (l ! j))"
proof (induction l)
  case Nil
  then show ?case by simp
next
  case (Cons item later)
  show ?case
  proof (cases "check_itemagain item later")
    case (Some e')
    with Cons.prems have "e' = e" by simp
    with Some obtain j where "j < length later" "fst item = fst (later ! j)"
      "e = DuplicateRequests (fst item) (snd item) (fst (later ! j)) (snd (later ! j))"
      using check_itemagain_Some by blast
    then show ?thesis
      by (intro exI [of _ 0] exI [of _ "Suc j"]) simp
  next
    case None
    with Cons obtain i j where "i < j" "j < length later"
      "fst (later ! i) = fst (later ! j)"
      "e = DuplicateRequests (fst (later ! i)) (snd (later ! i))
             (fst (later ! j)) (snd (later ! j))"
      by auto
    then show ?thesis
      by (intro exI [of _ "Suc i"] exI [of _ "Suc j"]) simp
  qed
qed

lemma duplicate_pair_iff:
  "(\<exists>i j. i < j \<and> j < length l \<and> fst (l ! i) = fst (l ! j)) \<longleftrightarrow> \<not> distinct (map fst l)"
proof
  assume "\<exists>i j. i < j \<and> j < length l \<and> fst (l ! i) = fst (l ! j)"
  then obtain i j where "i < j" "j < length l" "fst (l ! i) = fst (l ! j)" by blast
  then have "i < length l" "j < length l" "i \<noteq> j" "map fst l ! i = map fst l ! j"
    by simp_all
  then show "\<not> distinct (map fst l)"
    unfolding distinct_conv_nth by (metis length_map)
next
  assume "\<not> distinct (map fst l)"
  then obtain i j where ij: "i < length l" "j < length l" "i \<noteq> j" "fst (l ! i) = fst (l ! j)"
    by (auto simp: distinct_conv_nth)
  show "\<exists>i j. i < j \<and> j < length l \<and> fst (l ! i) = fst (l ! j)"
  proof (cases "i < j")
    case True
    with ij show ?thesis by blast
  next
    case False
    with ij have "j < i" by simp
    with ij show ?thesis by metis
  qed
qed

text \<open>
  C3. Constructing a \<open>ResponseMapping\<close> from a list of stubs raises exactly when two
  entries at different positions have equal requests (the responses play no part in the
  test); the exception raised carries the request and the response of two such entries;
  and with pairwise different requests the construction succeeds and keeps the list.
\<close>

theorem ResponseMapping_init_duplicates:
  "((\<exists>e. ResponseMapping_init (Some l) = Inl e) \<longleftrightarrow>
      (\<exists>i j. i < j \<and> j < length l \<and> fst (l ! i) = fst (l ! j)))
   \<and> (\<forall>e. ResponseMapping_init (Some l) = Inl e \<longrightarrow>
        (\<exists>i j. i < j \<and> j < length l \<and> fst (l ! i) = fst (l ! j)
           \<and> e = DuplicateRequests (fst (l ! i)) (snd (l ! i)) (fst (l ! j)) (snd (l ! j))))
   \<and> (distinct (map fst l) \<longrightarrow> ResponseMapping_init (Some l) = Inr \<lparr>mapping_stubs = l\<rparr>)"
proof (intro conjI allI impI)
  show "(\<exists>e. ResponseMapping_init (Some l) = Inl e) \<longleftrightarrow>
      (\<exists>i j. i < j \<and> j < length l \<and> fst (l ! i) = fst (l ! j))"
    unfolding duplicate_pair_iff check_stubs_None [symmetric]
    by (auto simp: ResponseMapping_init_def split: option.splits)
next
  fix e assume "ResponseMapping_init (Some l) = Inl e"
  then have "check_stubs l = Some e"
    by (auto simp: ResponseMapping_init_def split: option.splits)
  then show "\<exists>i j. i < j \<and> j < length l \<and> fst (l ! i) = fst (l ! j)
           \<and> e = DuplicateRequests (fst (l ! i)) (snd (l ! i)) (fst (l ! j)) (snd (l ! j))"
    by (rule check_stubs_Some)
next
  assume "distinct (map fst l)"
  then have "check_stubs l = None" by (simp add: check_stubs_None)
  then show "ResponseMapping_init (Some l) = Inr \<lparr>mapping_stubs = l\<rparr>"
    by (simp add: ResponseMapping_init_def)
qed

theorem ResponseMapping_init_duplicates_witness:
  "ResponseMapping_init (Some [(get_x, resp_ok), (post_x, resp_ok), (get_x, resp_created)])
     = Inl (DuplicateRequests get_x resp_ok get_x resp_created)
   \<and> (\<exists>i j. i < j \<and> j < length [(get_x, resp_ok), (post_x, resp_ok), (get_x, resp_created)]
         \<and> fst ([(get_x, resp_ok), (post_x, resp_ok), (get_x, resp_created)] ! i)
           = fst ([(get_x, resp_ok), (post_x, resp_ok), (get_x, resp_created)] ! j))
   \<and> distinct (map fst [(get_x, resp_ok), (post_x, resp_ok)])
   \<and> ResponseMapping_init (Some [(get_x, resp_ok), (post_x, resp_ok)])
       = Inr \<lparr>mapping_stubs = [(get_x, resp_ok), (post_x, resp_ok)]\<rparr>"
  using ResponseMapping_init_duplicates
          [of "[(get_x, resp_ok), (post_x, resp_ok), (get_x, resp_created)]"]
    ResponseMapping_init_duplicates [of "[(get_x, resp_ok), (post_x, resp_ok)]"]
  by (simp add: ResponseMapping_init_def)

subsection \<open>Lookup in a ResponseMapping\<close>

lemma scan_stubs_find:
  "scan_stubs l r = map_option snd (List.find (\<lambda>s. fst s = r) l)"
  by (induction l r rule: scan_stubs.induct) auto

lemma scan_stubs_Some_iff:
  "scan_stubs l r = Some resp \<longleftrightarrow>
     (\<exists>i < length l. l ! i = (r, resp) \<and> (\<forall>j < i. fst (l ! j) \<noteq> r))"
  unfolding scan_stubs_find
  by (auto simp: find_Some_iff prod_eq_iff)

lemma scan_stubs_None_iff:
  "scan_stubs l r = None \<longleftrightarrow> (\<forall>s \<in> set l. fst s \<noteq> r)"
  by (induction l r rule: scan_stubs.induct) auto

text \<open>
  C4. \<open>ResponseMapping.get_response(method, url, **kwargs)\<close> returns a response exactly
  when that response belongs to the first entry, in list order, whose request equals
  \<open>(method, url, kwargs)\<close>; when no entry has that request it raises the error that
  carries \<open>method\<close>, \<open>url\<close> and \<open>kwargs\<close>, and it raises nothing else.
\<close>

theorem ResponseMapping_get_response_first_match:
  "(fst (ResponseMapping_get_response self method url kwargs) = Inr resp \<longleftrightarrow>
      (\<exists>i < length (mapping_stubs self).
          mapping_stubs self ! i = ((method, url, kwargs), resp)
          \<and> (\<forall>j < i. fst (mapping_stubs self ! j) \<noteq> (method, url, kwargs))))
   \<and> ((\<forall>s \<in> set (mapping_stubs self). fst s \<noteq> (method, url, kwargs)) \<longrightarrow>
        fst (ResponseMapping_get_response self method url kwargs)
          = Inl (NoResponseMapped method url kwargs))
   \<and> (fst (ResponseMapping_get_response self method url kwargs) = Inl e \<longrightarrow>
        e = NoResponseMapped method url kwargs
        \<and> (\<forall>s \<in> set (mapping_stubs self). fst s \<noteq> (method, url, kwargs)))"
proof (cases "scan_stubs (mapping_stubs self) (method, url, kwargs)")
  case None
  then have none: "\<forall>s \<in> set (mapping_stubs self). fst s \<noteq> (method, url, kwargs)"
    by (simp add: scan_stubs_None_iff)
  have res: "fst (ResponseMapping_get_response self method url kwargs)
      = Inl (NoResponseMapped method url kwargs)"
    using None by (simp add: ResponseMapping_get_response_def)
  have "\<not> (\<exists>i < length (mapping_stubs self).
          mapping_stubs self ! i = ((method, url, kwargs), resp)
          \<and> (\<forall>j < i. fst (mapping_stubs self ! j) \<noteq> (method, url, kwargs)))"
    using None scan_stubs_Some_iff [of "mapping_stubs self" "(method, url, kwargs)" resp]
    by simp
  with none res show ?thesis by simp
next
  case (Some r)
  have res: "fst (ResponseMapping_get_response self method url kwargs) = Inr r"
    using Some by (simp add: ResponseMapping_get_response_def)
  have some: "\<not> (\<forall>s \<in> set (mapping_stubs self). fst s \<noteq> (method, url, kwargs))"
    using Some scan_stubs_None_iff [of "mapping_stubs self" "(method, url, kwargs)"]
    by simp
  have "r = resp \<longleftrightarrow> (\<exists>i < length (mapping_stubs self).
          mapping_stubs self ! i = ((method, url, kwargs), resp)
          \<and> (\<forall>j < i. fst (mapping_stubs self ! j) \<noteq> (method, url, kwargs)))"
    using Some scan_stubs_Some_iff [of "mapping_stubs self" "(method, url, kwargs)" resp]
    by simp
  with res some show ?thesis by simp
qed

theorem ResponseMapping_get_response_first_match_witness:
  "fst (ResponseMapping_get_response \<lparr>mapping_stubs = [(post_x, resp_created)]\<rparr>
          ''GET'' ''http://x'' Map.empty) = Inl (NoResponseMapped ''GET'' ''http://x'' Map.empty)
   \<and> fst (ResponseMapping_get_response
          \<lparr>mapping_stubs = [(post_x, resp_created), (get_x, resp_ok), (get_x, resp_created)]\<rparr>
          ''GET'' ''http://x'' Map.empty) = Inr resp_ok"
  using ResponseMapping_get_response_first_match
          [of "\<lparr>mapping_stubs = [(post_x, resp_created)]\<rparr>"
              "''GET''" "''http://x''" Map.empty resp_ok
              "NoResponseMapped ''GET'' ''http://x'' Map.empty"]
  by (simp add: ResponseMapping_get_response_def)

lemma ResponseMapping_get_response_self:
  "snd (ResponseMapping_get_response self method url kwargs) = self"
  by (simp add: ResponseMapping_get_response_def split: option.splits)

lemma mapping_calls_snd: "snd (mapping_calls self calls) = self"
proof (induction calls)
  case Nil
  show ?case by simp
next
  case (Cons c calls)
  obtain m u kw where c: "c = (m, u, kw)" by (cases c)
  obtain r self' where g: "ResponseMapping_get_response self m u kw = (r, self')"
    by (cases "ResponseMapping_get_response self m u kw")
  with ResponseMapping_get_response_self [of self m u kw] have "self' = self"
    by simp
  with Cons c g show ?case by (cases "mapping_calls self calls") simp
qed

lemma mapping_calls_fst:
  "fst (mapping_calls self calls) =
     map (\<lambda>(method, url, kwargs). fst (ResponseMapping_get_response self method url kwargs))
       calls"
proof (induction calls)
  case Nil
  show ?case by simp
next
  case (Cons c calls)
  obtain m u kw where c: "c = (m, u, kw)" by (cases c)
  obtain r self' where g: "ResponseMapping_get_response self m u kw = (r, self')"
    by (cases "ResponseMapping_get_response self m u kw")
  with ResponseMapping_get_response_self [of self m u kw] have "self' = self"
    by simp
  with Cons c g show ?case by (cases "mapping_calls self calls") simp
qed

text \<open>
  C5. A lookup in a \<open>ResponseMapping\<close> leaves the object as it was, whether it returns
  or raises; so after any succession of lookups the entries are unchanged, every lookup
  of the succession gives what it gives on the initial object, and the same lookup made
  \<open>n\<close> times gives the same result \<open>n\<close> times.
\<close>

theorem ResponseMapping_lookups_keep_entries:
  "snd (ResponseMapping_get_response self method url kwargs) = self
   \<and> mapping_stubs (snd (mapping_calls self calls)) = mapping_stubs self
   \<and> snd (mapping_calls self calls) = self
   \<and> fst (mapping_calls self calls) =
       map (\<lambda>(method, url, kwargs). fst (ResponseMapping_get_response self method url kwargs))
         calls
   \<and> fst (mapping_calls self (replicate n (method, url, kwargs))) =
       replicate n (fst (ResponseMapping_get_response self method url kwargs))"
  by (simp add: ResponseMapping_get_response_self mapping_calls_snd mapping_calls_fst)

theorem ResponseMapping_lookups_keep_entries_witness:
  "mapping_calls \<lparr>mapping_stubs = [(get_x, resp_ok), (post_x, resp_created)]\<rparr>
      [post_x, (''PUT'', ''http://x'', Map.empty), get_x, get_x]
    = ([Inr resp_created, Inl (NoResponseMapped ''PUT'' ''http://x'' Map.empty),
        Inr resp_ok, Inr resp_ok],
       \<lparr>mapping_stubs = [(get_x, resp_ok), (post_x, resp_created)]\<rparr>)"
  using ResponseMapping_lookups_keep_entries
          [of "\<lparr>mapping_stubs = [(get_x, resp_ok), (post_x, resp_created)]\<rparr>"
              "''GET''" "''http://x''" Map.empty
              "[post_x, (''PUT'', ''http://x'', Map.empty), get_x, get_x]" 2]
  by (simp add: ResponseMapping_get_response_def prod_eq_iff)

subsection \<open>Lookup in a ResponseSequence\<close>

lemma ResponseSequence_get_response_self:
  "snd (ResponseSequence_get_response self method url kwargs) = self"
  by (simp add: ResponseSequence_get_response_def split: list.splits prod.splits)

lemma sequence_calls_snd: "snd (sequence_calls self calls) = self"
proof (induction calls)
  case Nil
  show ?case by simp
next
  case (Cons c calls)
  obtain m u kw where c: "c = (m, u, kw)" by (cases c)
  obtain r self' where g: "ResponseSequence_get_response self m u kw = (r, self')"
    by (cases "ResponseSequence_get_response self m u kw")
  with ResponseSequence_get_response_self [of self m u kw] have "self' = self"
    by simp
  with Cons c g show ?case by (cases "sequence_calls self calls") simp
qed

lemma sequence_calls_fst:
  "fst (sequence_calls self calls) =
     map (\<lambda>(method, url, kwargs). fst (ResponseSequence_get_response self method url kwargs))
       calls"
proof (induction calls)
  case Nil
  show ?case by simp
next
  case (Cons c calls)
  obtain m u kw where c: "c = (m, u, kw)" by (cases c)
  obtain r self' where g: "ResponseSequence_get_response self m u kw = (r, self')"
    by (cases "ResponseSequence_get_response self m u kw")
  with ResponseSequence_get_response_self [of self m u kw] have "self' = self"
    by simp
  with Cons c g show ?case by (cases "sequence_calls self calls") simp
qed

lemma ResponseSequence_get_response_head:
  "fst (ResponseSequence_get_response self method url kwargs) =
     (case sequence_stubs self of
        [] \<Rightarrow> Inl (NotExpectingRequest method url kwargs)
      | first # _ \<Rightarrow>
          if fst first = (method, url, kwargs) then Inr (snd first)
          else Inl (NotExpectingRequest method url kwargs))"
  by (simp add: ResponseSequence_get_response_def split: list.splits prod.splits)

text \<open>
  C9. \<open>ResponseSequence.get_response\<close> leaves the object as it was, whether it
  returns a response or raises: the list of stubs after the call is the list before it.
  So in any succession of calls every request is compared with the same first entry,
  that of the initial list.
\<close>

theorem ResponseSequence_get_response_keeps_stubs:
  "snd (ResponseSequence_get_response self method url kwargs) = self
   \<and> sequence_stubs (snd (ResponseSequence_get_response self method url kwargs))
       = sequence_stubs self
   \<and> snd (sequence_calls self calls) = self
   \<and> fst (sequence_calls self calls) =
       map (\<lambda>(method, url, kwargs).
              case sequence_stubs self of
                [] \<Rightarrow> Inl (NotExpectingRequest method url kwargs)
              | first # _ \<Rightarrow>
                  if fst first = (method, url, kwargs) then Inr (snd first)
                  else Inl (NotExpectingRequest method url kwargs))
         calls"
  by (simp add: ResponseSequence_get_response_self sequence_calls_snd sequence_calls_fst
      ResponseSequence_get_response_head)

theorem ResponseSequence_get_response_keeps_stubs_witness:
  "sequence_calls \<lparr>sequence_stubs = [(get_x, resp_ok), (post_x, resp_created)]\<rparr>
      [post_x, get_x, get_x]
    = ([Inl (NotExpectingRequest ''POST'' ''http://x'' Map.empty), Inr resp_ok, Inr resp_ok],
       \<lparr>sequence_stubs = [(get_x, resp_ok), (post_x, resp_created)]\<rparr>)"
  using ResponseSequence_get_response_keeps_stubs
          [of "\<lparr>sequence_stubs = [(get_x, resp_ok), (post_x, resp_created)]\<rparr>"
              "''GET''" "''http://x''" Map.empty "[post_x, get_x, get_x]"]
  by (simp add: prod_eq_iff)

text \<open>
  C1. The claim is that a matched entry is consumed: with the stubs
  \<open>[(req1, resp1), (req2, resp2)]\<close>, asking for \<open>req1\<close> and then for \<open>req2\<close> returns
  \<open>resp1\<close> and then \<open>resp2\<close>. The code gives \<open>resp1\<close> and then raises: the second call
  still compares \<open>req2\<close> with the first entry, and the second entry is never reached.
\<close>

theorem ResponseSequence_second_entry_unreachable:
  "sequence_calls (ResponseSequence_init (Some [(get_x, resp_ok), (post_x, resp_created)]))
      [get_x, post_x]
    = ([Inr resp_ok, Inl (NotExpectingRequest ''POST'' ''http://x'' Map.empty)],
       \<lparr>sequence_stubs = [(get_x, resp_ok), (post_x, resp_created)]\<rparr>)"
  by (simp add: ResponseSequence_init_def ResponseSequence_get_response_def)

subsection \<open>StubTreq.request\<close>

text \<open>
  C2, as stated, fails: with the single stub \<open>('GET', 'http://x', {})\<close>, the call
  \<open>request('GET', 'http://x')\<close> returns the fired result with the response, and
  \<open>request('get', 'http://x')\<close> raises; the method reaches the strategy as it was
  given.
\<close>

theorem request_method_case_counterexample:
  "fst (request \<lparr>stubs = Mapping \<lparr>mapping_stubs = [(get_x, resp_ok)]\<rparr>\<rparr>
          ''GET'' ''http://x'' Map.empty) = Inr (Succeeded resp_ok)
   \<and> fst (request \<lparr>stubs = Mapping \<lparr>mapping_stubs = [(get_x, resp_ok)]\<rparr>\<rparr>
          ''get'' ''http://x'' Map.empty) = Inl (NoResponseMapped ''get'' ''http://x'' Map.empty)"
  by (simp add: request_def ResponseMapping_get_response_def succeed_def)

lemma request_fst:
  "fst (request self method url kwargs) =
     (case fst (get_response (stubs self) method url kwargs) of
        Inl e \<Rightarrow> Inl e
      | Inr resp \<Rightarrow> Inr (succeed resp))"
  by (simp add: request_def split: prod.splits sum.splits)

lemma scan_stubs_Some_mem:
  "scan_stubs l r = Some resp \<Longrightarrow> (r, resp) \<in> set l"
  by (induction l r rule: scan_stubs.induct) (auto split: if_splits)

lemma get_response_Inr_mem:
  "fst (get_response strat method url kwargs) = Inr resp \<Longrightarrow>
     ((method, url, kwargs), resp) \<in>
       set (case strat of Mapping m \<Rightarrow> mapping_stubs m | Sequence s \<Rightarrow> sequence_stubs s)"
proof (cases strat)
  case (Mapping m)
  assume "fst (get_response strat method url kwargs) = Inr resp"
  with Mapping have "scan_stubs (mapping_stubs m) (method, url, kwargs) = Some resp"
    by (auto simp: ResponseMapping_get_response_def split: option.splits prod.splits)
  with Mapping show ?thesis by (simp add: scan_stubs_Some_mem)
next
  case (Sequence s)
  assume "fst (get_response strat method url kwargs) = Inr resp"
  with Sequence show ?thesis
    by (auto simp: ResponseSequence_get_response_def split: list.splits prod.splits if_splits)
qed

text \<open>
  C2, amended. \<open>request\<close> hands the method to the strategy as it is given, without
  changing its case: whenever \<open>request(method, url, **kwargs)\<close> returns, it returns the
  fired result of a response that the strategy's \<open>get_response\<close> gave for that very
  method, and the strategy's list holds an entry with exactly the request
  \<open>(method, url, kwargs)\<close> and that response.
\<close>

theorem request_method_verbatim:
  "fst (request self method url kwargs) = Inr d \<Longrightarrow>
     \<exists>resp. d = succeed resp
       \<and> fst (get_response (stubs self) method url kwargs) = Inr resp
       \<and> ((method, url, kwargs), resp) \<in>
           set (case stubs self of Mapping m \<Rightarrow> mapping_stubs m | Sequence s \<Rightarrow> sequence_stubs s)"
proof -
  assume a: "fst (request self method url kwargs) = Inr d"
  then obtain resp where r: "fst (get_response (stubs self) method url kwargs) = Inr resp"
    and d: "d = succeed resp"
    by (auto simp: request_fst split: sum.splits)
  from r have "((method, url, kwargs), resp) \<in>
           set (case stubs self of Mapping m \<Rightarrow> mapping_stubs m | Sequence s \<Rightarrow> sequence_stubs s)"
    by (rule get_response_Inr_mem)
  with r d show ?thesis by blast
qed

theorem request_method_verbatim_witness:
  "fst (request \<lparr>stubs = Mapping \<lparr>mapping_stubs = [(get_x, resp_ok)]\<rparr>\<rparr>
          ''GET'' ''http://x'' Map.empty) = Inr (Succeeded resp_ok)
   \<and> (get_x, resp_ok) \<in> set [(get_x, resp_ok)]"
  using request_method_verbatim
          [of "\<lparr>stubs = Mapping \<lparr>mapping_stubs = [(get_x, resp_ok)]\<rparr>\<rparr>"
              "''GET''" "''http://x''" Map.empty "Succeeded resp_ok"]
  by (simp add: request_def ResponseMapping_get_response_def succeed_def)

text \<open>
  C10. When the strategy's \<open>get_response\<close> raises, \<open>request\<close> raises the same error
  itself, before \<open>succeed\<close> is called; \<open>request\<close> returns a result exactly when the
  strategy returned a response, the result is that response wrapped by \<open>succeed\<close>, and
  it is never a result that has fired with a failure.
\<close>

theorem request_raises_before_succeed:
  "(fst (get_response (stubs self) method url kwargs) = Inl e \<longrightarrow>
      fst (request self method url kwargs) = Inl e)
   \<and> (fst (request self method url kwargs) = Inr d \<longleftrightarrow>
        (\<exists>resp. fst (get_response (stubs self) method url kwargs) = Inr resp
           \<and> d = succeed resp))
   \<and> fst (request self method url kwargs) \<noteq> Inr (Failed e')"
  by (auto simp: request_fst succeed_def split: sum.splits)

theorem request_raises_before_succeed_witness:
  "fst (get_response (Sequence \<lparr>sequence_stubs = [(get_x, resp_ok)]\<rparr>)
          ''POST'' ''http://x'' Map.empty)
     = Inl (NotExpectingRequest ''POST'' ''http://x'' Map.empty)
   \<and> fst (request \<lparr>stubs = Sequence \<lparr>sequence_stubs = [(get_x, resp_ok)]\<rparr>\<rparr>
          ''POST'' ''http://x'' Map.empty)
     = Inl (NotExpectingRequest ''POST'' ''http://x'' Map.empty)"
  using request_raises_before_succeed
          [of "\<lparr>stubs = Sequence \<lparr>sequence_stubs = [(get_x, resp_ok)]\<rparr>\<rparr>"
              "''POST''" "''http://x''" Map.empty
              "NotExpectingRequest ''POST'' ''http://x'' Map.empty"]
  by (simp add: ResponseSequence_get_response_def)

subsection \<open>put, post and the synthesized methods\<close>

text \<open>
  C7. \<open>put(url, data=x, **kwargs)\<close> is \<open>request('PUT', url, data=x, **kwargs)\<close> and
  \<open>post(url, data=x, **kwargs)\<close> is \<open>request('POST', url, data=x, **kwargs)\<close>: the
  same outcome and the same object afterwards, with \<open>data\<close> added to the keyword
  arguments; when \<open>data\<close> is left out it goes in as \<open>None\<close>.
\<close>

theorem put_post_delegate:
  "put self url (Some x) kwargs = request self ''PUT'' url (kwargs(''data'' \<mapsto> x))
   \<and> post self url (Some x) kwargs = request self ''POST'' url (kwargs(''data'' \<mapsto> x))
   \<and> put self url None kwargs = request self ''PUT'' url (kwargs(''data'' \<mapsto> PyNone))
   \<and> post self url None kwargs = request self ''POST'' url (kwargs(''data'' \<mapsto> PyNone))"
  by (simp add: put_def post_def)

theorem put_post_delegate_witness:
  "fst (put \<lparr>stubs = Mapping \<lparr>mapping_stubs =
          [((''PUT'', ''http://x'', [''data'' \<mapsto> PyBytes ''body'']), resp_created)]\<rparr>\<rparr>
        ''http://x'' (Some (PyBytes ''body'')) Map.empty) = Inr (Succeeded resp_created)
   \<and> fst (post \<lparr>stubs = Mapping \<lparr>mapping_stubs =
          [((''PUT'', ''http://x'', [''data'' \<mapsto> PyBytes ''body'']), resp_created)]\<rparr>\<rparr>
        ''http://x'' (Some (PyBytes ''body'')) Map.empty)
      = Inl (NoResponseMapped ''POST'' ''http://x'' [''data'' \<mapsto> PyBytes ''body''])"
  using put_post_delegate
          [of "\<lparr>stubs = Mapping \<lparr>mapping_stubs =
                 [((''PUT'', ''http://x'', [''data'' \<mapsto> PyBytes ''body'']), resp_created)]\<rparr>\<rparr>"
              "''http://x''" "PyBytes ''body''" Map.empty]
  by (simp add: request_def ResponseMapping_get_response_def succeed_def)

lemma upper_get: "upper ''get'' = ''GET''"
  by code_simp

lemma upper_head: "upper ''head'' = ''HEAD''"
  by code_simp

lemma upper_delete: "upper ''delete'' = ''DELETE''"
  by code_simp

text \<open>
  C8. For the names \<open>get\<close>, \<open>head\<close> and \<open>delete\<close>, \<open>__getattr__\<close> returns a callable
  that, applied to a url and keyword arguments, is \<open>request\<close> with the name in upper
  case (\<open>GET\<close>, \<open>HEAD\<close>, \<open>DELETE\<close>) and those arguments. For every other name it raises
  \<open>AttributeError\<close> with the message \<open>StubTreq has no attribute '<name>'\<close>.
\<close>

theorem getattr_get_head_delete:
  "(method \<in> {''get'', ''head'', ''delete''} \<longrightarrow>
      (\<exists>f. getattr self method = Inr f
         \<and> (\<forall>url kwargs. f url kwargs = request self (upper method) url kwargs)))
   \<and> (getattr self ''get'' = Inr (request self ''GET'')
      \<and> getattr self ''head'' = Inr (request self ''HEAD'')
      \<and> getattr self ''delete'' = Inr (request self ''DELETE''))
   \<and> (method \<notin> {''get'', ''head'', ''delete''} \<longrightarrow>
        getattr self method
          = Inl (AttributeError (''StubTreq has no attribute '' @ [CHR 0x27] @ method @ [CHR 0x27])))"
  by (auto simp: getattr_def upper_get upper_head upper_delete)

theorem getattr_get_head_delete_witness:
  "''head'' \<in> {''get'', ''head'', ''delete''}
   \<and> getattr \<lparr>stubs = Mapping \<lparr>mapping_stubs = [(get_x, resp_ok)]\<rparr>\<rparr> ''head''
       = Inr (request \<lparr>stubs = Mapping \<lparr>mapping_stubs = [(get_x, resp_ok)]\<rparr>\<rparr> ''HEAD'')
   \<and> ''options'' \<notin> {''get'', ''head'', ''delete''}
   \<and> getattr \<lparr>stubs = Mapping \<lparr>mapping_stubs = [(get_x, resp_ok)]\<rparr>\<rparr> ''options''
       = Inl (AttributeError (''StubTreq has no attribute '' @ [CHR 0x27] @ ''options'' @ [CHR 0x27]))"
  using getattr_get_head_delete
          [of "''options''" "\<lparr>stubs = Mapping \<lparr>mapping_stubs = [(get_x, resp_ok)]\<rparr>\<rparr>"]
        getattr_get_head_delete
          [of "''head''" "\<lparr>stubs = Mapping \<lparr>mapping_stubs = [(get_x, resp_ok)]\<rparr>\<rparr>"]
  by simp

end
